theory Spec2Isabelle
  imports Complex_Main
begin

section \<open>The gravitational integrator of planet\_sim02\<close>

text \<open>
  A shallow embedding of the classes \<open>CelestialBody\<close> and \<open>PhysicsEngine\<close> of
  \<open>planet_sim02/main.py\<close>.

  Numbers. The source computes with Python floats and two-element numpy arrays of
  float64. The embedding reads every float as a real number and every array as a pair
  of reals, so the theorems below are about the formulas the source evaluates, in exact
  arithmetic: rounding, overflow to infinity and NaN are outside the model.

  Objects. A \<open>CelestialBody\<close> is a mutable Python object and the class defines no
  \<open>__eq__\<close>, so \<open>==\<close>, \<open>!=\<close>, \<open>in\<close> and \<open>list.remove\<close> compare bodies by identity. The
  embedding keeps identity and contents apart: a body is named by a reference, the
  object store maps every reference to the current contents of that object, and the
  engine's list \<open>bodies\<close> holds references (the same object may be listed twice, and two
  different objects may have equal contents).
\<close>

subsection \<open>Two-element arrays\<close>

type_synonym vec2 = "real \<times> real"

definition vzero :: vec2 where
  \<comment> \<open>\<open>np.array([0.0, 0.0])\<close>\<close>
  "vzero = (0, 0)"

fun vadd :: "vec2 \<Rightarrow> vec2 \<Rightarrow> vec2" where
  "vadd (a, b) (c, d) = (a + c, b + d)"

fun vsub :: "vec2 \<Rightarrow> vec2 \<Rightarrow> vec2" where
  "vsub (a, b) (c, d) = (a - c, b - d)"

fun vneg :: "vec2 \<Rightarrow> vec2" where
  "vneg (a, b) = (- a, - b)"

fun vmul :: "vec2 \<Rightarrow> real \<Rightarrow> vec2" where
  \<comment> \<open>array \<open>*\<close> scalar\<close>
  "vmul (a, b) k = (a * k, b * k)"

fun smul :: "real \<Rightarrow> vec2 \<Rightarrow> vec2" where
  \<comment> \<open>scalar \<open>*\<close> array\<close>
  "smul k (a, b) = (k * a, k * b)"

fun vdiv :: "vec2 \<Rightarrow> real \<Rightarrow> vec2" where
  \<comment> \<open>array \<open>/\<close> scalar. numpy does not raise on a zero divisor (it yields inf or nan
      with a warning); the real quotient agrees with the source for a nonzero divisor
      only.\<close>
  "vdiv (a, b) k = (a / k, b / k)"

fun vnorm :: "vec2 \<Rightarrow> real" where
  \<comment> \<open>\<open>np.linalg.norm\<close> of a two-element array\<close>
  "vnorm (a, b) = sqrt (a\<^sup>2 + b\<^sup>2)"

subsection \<open>Python exceptions\<close>

datatype error = ValueError | IndexError

fun list_pop0 :: "'a list \<Rightarrow> error + 'a list" where
  \<comment> \<open>Python's \<open>list.pop(0)\<close>, keeping the list that is left: \<open>IndexError\<close> on an
      empty list.\<close>
  "list_pop0 [] = Inl IndexError"
| "list_pop0 (x # xs) = Inr xs"

subsection \<open>CelestialBody\<close>

record CelestialBody =
  name :: string
  mass :: real
  position :: vec2
  velocity :: vec2
  acceleration :: vec2
  color :: "int \<times> int \<times> int"
  trajectory :: "vec2 list"

definition CelestialBody_init ::
  "string \<Rightarrow> real \<Rightarrow> vec2 \<Rightarrow> vec2 \<Rightarrow> int \<times> int \<times> int \<Rightarrow> CelestialBody" where
  \<comment> \<open>\<open>CelestialBody.__init__\<close>; the arrays are fresh copies of the arguments.\<close>
  "CelestialBody_init n m p v c =
     \<lparr>name = n, mass = m, position = p, velocity = v, acceleration = vzero,
      color = c, trajectory = []\<rparr>"

definition apply_force :: "vec2 \<Rightarrow> CelestialBody \<Rightarrow> CelestialBody" where
  \<comment> \<open>\<open>self.acceleration = force / self.mass\<close>. Nothing is raised for a zero mass
      (numpy yields inf or nan); the quotient below is the source's for a nonzero mass.\<close>
  "apply_force force b = b\<lparr>acceleration := vdiv force (mass b)\<rparr>"

definition CelestialBody_update :: "real \<Rightarrow> CelestialBody \<Rightarrow> CelestialBody" where
  \<comment> \<open>\<open>CelestialBody.update(dt)\<close>. \<open>pop(0)\<close> runs on a list of more than 500 entries
      only, where it drops the first entry.\<close>
  "CelestialBody_update dt b =
     (let b1 = b\<lparr>velocity := vadd (velocity b) (vmul (acceleration b) dt)\<rparr>;
          b2 = b1\<lparr>position := vadd (position b1) (vmul (velocity b1) dt)\<rparr>;
          b3 = b2\<lparr>trajectory := trajectory b2 @ [position b2]\<rparr>
      in if length (trajectory b3) > 500 then b3\<lparr>trajectory := tl (trajectory b3)\<rparr>
         else b3)"

definition CelestialBody_update_checked :: "real \<Rightarrow> CelestialBody \<Rightarrow> error + CelestialBody" where
  \<comment> \<open>\<open>CelestialBody.update(dt)\<close> once more, with the one statement of its body that can
      raise, \<open>self.trajectory.pop(0)\<close>, keeping its error branch.\<close>
  "CelestialBody_update_checked dt b =
     (let b1 = b\<lparr>velocity := vadd (velocity b) (vmul (acceleration b) dt)\<rparr>;
          b2 = b1\<lparr>position := vadd (position b1) (vmul (velocity b1) dt)\<rparr>;
          b3 = b2\<lparr>trajectory := trajectory b2 @ [position b2]\<rparr>
      in if length (trajectory b3) > 500
         then (case list_pop0 (trajectory b3) of
                 Inl e \<Rightarrow> Inl e
               | Inr t \<Rightarrow> Inr (b3\<lparr>trajectory := t\<rparr>))
         else Inr b3)"

subsection \<open>PhysicsEngine\<close>

type_synonym ref = nat

record PhysicsEngine =
  heap :: "ref \<Rightarrow> CelestialBody"
  bodies :: "ref list"
  time :: real

definition G :: real where
  \<comment> \<open>\<open>G = 6.67430e-11\<close>\<close>
  "G = 667430 / 10 ^ 16"

definition PhysicsEngine_init :: "(ref \<Rightarrow> CelestialBody) \<Rightarrow> PhysicsEngine" where
  "PhysicsEngine_init h = \<lparr>heap = h, bodies = [], time = 0\<rparr>"

definition add_body :: "ref \<Rightarrow> PhysicsEngine \<Rightarrow> PhysicsEngine" where
  \<comment> \<open>\<open>self.bodies.append(body)\<close>\<close>
  "add_body r s = s\<lparr>bodies := bodies s @ [r]\<rparr>"

fun list_remove :: "ref \<Rightarrow> ref list \<Rightarrow> error + ref list" where
  \<comment> \<open>Python's \<open>list.remove(x)\<close>: drops the first entry equal to \<open>x\<close>, raises
      \<open>ValueError\<close> when there is none.\<close>
  "list_remove x [] = Inl ValueError"
| "list_remove x (y # ys) =
     (if y = x then Inr ys
      else (case list_remove x ys of Inl e \<Rightarrow> Inl e | Inr zs \<Rightarrow> Inr (y # zs)))"

definition remove_body :: "ref \<Rightarrow> PhysicsEngine \<Rightarrow> error + PhysicsEngine" where
  "remove_body r s =
     (if r \<in> set (bodies s)
      then (case list_remove r (bodies s) of
              Inl e \<Rightarrow> Inl e
            | Inr bs \<Rightarrow> Inr (s\<lparr>bodies := bs\<rparr>))
      else Inr s)"

definition clear_all :: "PhysicsEngine \<Rightarrow> PhysicsEngine" where
  "clear_all s = s\<lparr>bodies := [], time := 0\<rparr>"

definition calculate_gravitational_force :: "CelestialBody \<Rightarrow> CelestialBody \<Rightarrow> vec2" where
  "calculate_gravitational_force body1 body2 =
     (let direction = vsub (position body2) (position body1);
          distance = vnorm direction
      in if distance < 1000 then vzero
         else (let direction_unit = vdiv direction distance;
                   force_magnitude = G * mass body1 * mass body2 / distance\<^sup>2
               in smul force_magnitude direction_unit))"

fun inner_loop :: "(ref \<Rightarrow> CelestialBody) \<Rightarrow> ref \<Rightarrow> ref list \<Rightarrow> vec2 \<Rightarrow> vec2" where
  \<comment> \<open>\<open>for other_body in self.bodies: if body != other_body: total_force += force\<close>\<close>
  "inner_loop h body [] total_force = total_force"
| "inner_loop h body (other_body # rest) total_force =
     inner_loop h body rest
       (if body \<noteq> other_body
        then vadd total_force (calculate_gravitational_force (h body) (h other_body))
        else total_force)"

fun force_loop :: "ref list \<Rightarrow> ref list \<Rightarrow> (ref \<Rightarrow> CelestialBody) \<Rightarrow> ref \<Rightarrow> CelestialBody" where
  \<comment> \<open>The first loop of \<open>PhysicsEngine.update\<close>; the first argument is what is left of the
      iteration, the second the whole list \<open>self.bodies\<close>.\<close>
  "force_loop [] all h = h"
| "force_loop (body # rest) all h =
     force_loop rest all (h(body := apply_force (inner_loop h body all vzero) (h body)))"

fun move_loop :: "ref list \<Rightarrow> real \<Rightarrow> (ref \<Rightarrow> CelestialBody) \<Rightarrow> ref \<Rightarrow> CelestialBody" where
  \<comment> \<open>The second loop of \<open>PhysicsEngine.update\<close>\<close>
  "move_loop [] dt h = h"
| "move_loop (body # rest) dt h = move_loop rest dt (h(body := CelestialBody_update dt (h body)))"

definition update :: "real \<Rightarrow> PhysicsEngine \<Rightarrow> PhysicsEngine" where
  "update dt s =
     (let h1 = force_loop (bodies s) (bodies s) (heap s);
          h2 = move_loop (bodies s) dt h1
      in s\<lparr>heap := h2, time := time s + dt\<rparr>)"

subsection \<open>Specification-level notions\<close>

fun vsum :: "vec2 list \<Rightarrow> vec2" where
  "vsum [] = vzero"
| "vsum (v # vs) = vadd v (vsum vs)"

definition net_force :: "(ref \<Rightarrow> CelestialBody) \<Rightarrow> ref list \<Rightarrow> ref \<Rightarrow> vec2" where
  \<comment> \<open>The sum of the pairwise force on \<open>body\<close> from every other entry of the
      collection, self excluded, in the store \<open>h\<close>.\<close>
  "net_force h all body =
     vsum (map (\<lambda>other. calculate_gravitational_force (h body) (h other))
             (filter (\<lambda>other. other \<noteq> body) all))"

fun positions_after :: "real list \<Rightarrow> CelestialBody \<Rightarrow> vec2 list" where
  \<comment> \<open>The positions a body takes after each of a sequence of calls of
      \<open>CelestialBody.update\<close>, oldest first.\<close>
  "positions_after [] b = []"
| "positions_after (dt # dts) b =
     position (CelestialBody_update dt b) # positions_after dts (CelestialBody_update dt b)"

subsection \<open>EnergyTester\<close>

text \<open>
  The energy bookkeeping of \<open>test.py\<close>: the kinetic energy is summed over the bodies, the
  potential energy over the pairs \<open>i < j\<close> (a pair at distance 0 is skipped), and the
  relative error is the absolute change over the absolute initial value, in percent.
\<close>

fun kinetic_loop :: "(ref \<Rightarrow> CelestialBody) \<Rightarrow> ref list \<Rightarrow> real \<Rightarrow> real" where
  \<comment> \<open>\<open>for body in bodies: v = norm(body.velocity); ke += 0.5 * body.mass * (v ** 2)\<close>\<close>
  "kinetic_loop h [] ke = ke"
| "kinetic_loop h (body # rest) ke =
     kinetic_loop h rest (ke + 0.5 * mass (h body) * (vnorm (velocity (h body)))\<^sup>2)"

definition calculate_kinetic_energy :: "PhysicsEngine \<Rightarrow> real" where
  "calculate_kinetic_energy s = kinetic_loop (heap s) (bodies s) 0"

fun potential_inner :: "(ref \<Rightarrow> CelestialBody) \<Rightarrow> ref \<Rightarrow> ref list \<Rightarrow> real \<Rightarrow> real" where
  \<comment> \<open>\<open>for body2 in bodies[i + 1:]: r = norm(body1.position - body2.position);
      if r > 0: pe -= G * body1.mass * body2.mass / r\<close>\<close>
  "potential_inner h body1 [] pe = pe"
| "potential_inner h body1 (body2 # rest) pe =
     potential_inner h body1 rest
       (let r = vnorm (vsub (position (h body1)) (position (h body2)))
        in if r > 0 then pe - G * mass (h body1) * mass (h body2) / r else pe)"

fun potential_outer :: "(ref \<Rightarrow> CelestialBody) \<Rightarrow> ref list \<Rightarrow> real \<Rightarrow> real" where
  \<comment> \<open>\<open>for i, body1 in enumerate(bodies)\<close>: the second argument is \<open>bodies[i:]\<close>.\<close>
  "potential_outer h [] pe = pe"
| "potential_outer h (body1 # rest) pe = potential_outer h rest (potential_inner h body1 rest pe)"

definition calculate_potential_energy :: "PhysicsEngine \<Rightarrow> real" where
  "calculate_potential_energy s = potential_outer (heap s) (bodies s) 0"

definition calculate_total_energy :: "PhysicsEngine \<Rightarrow> real" where
  "calculate_total_energy s = calculate_kinetic_energy s + calculate_potential_energy s"

definition relative_error :: "real \<Rightarrow> real \<Rightarrow> real" where
  \<comment> \<open>\<open>energy_change = abs(final_energy - initial_energy);
      relative_error = (energy_change / abs(initial_energy)) * 100\<close> in \<open>run_test\<close>, which
      passes when this is below 5.\<close>
  "relative_error initial_energy final_energy =
     (let energy_change = \<bar>final_energy - initial_energy\<bar>
      in (energy_change / \<bar>initial_energy\<bar>) * 100)"

subsection \<open>The Sun-Earth system of the energy test\<close>

text \<open>
  The bodies that \<open>main()\<close> of \<open>test.py\<close> creates (their names, in Ukrainian in the
  source, are written in English here) and adds to a fresh engine.
\<close>

definition M_sun :: real where
  \<comment> \<open>\<open>mass=1.989e30\<close>\<close>
  "M_sun = 1989 * 10 ^ 27"

definition m_earth :: real where
  \<comment> \<open>\<open>mass=5.972e24\<close>\<close>
  "m_earth = 5972 * 10 ^ 21"

definition sun :: CelestialBody where
  "sun = CelestialBody_init ''Sun'' M_sun (0, 0) (0, 0) (255, 220, 0)"

definition earth :: CelestialBody where
  "earth = CelestialBody_init ''Earth'' m_earth (1496 * 10 ^ 8, 0) (0, 29780) (50, 150, 255)"

definition sun_earth :: PhysicsEngine where
  "sun_earth = add_body 1 (add_body 0 (PhysicsEngine_init (\<lambda>r. if r = 0 then sun else earth)))"

subsection \<open>Relative coordinates\<close>

text \<open>
  Notions of the proof of the energy bound, not of the source: a two-element array read
  as a complex number, the position and velocity of body 1 relative to body 0, the total
  momentum, the energy and the angular momentum of the relative motion per unit of
  reduced mass, and the invariant that the steps of the Sun-Earth run preserve.
\<close>

definition mu :: real where
  \<comment> \<open>the gravitational parameter of the pair\<close>
  "mu = G * (M_sun + m_earth)"

definition cx :: "vec2 \<Rightarrow> complex" where
  "cx p = Complex (fst p) (snd p)"

definition rel_pos :: "PhysicsEngine \<Rightarrow> complex" where
  "rel_pos s = cx (position (heap s 1)) - cx (position (heap s 0))"

definition rel_vel :: "PhysicsEngine \<Rightarrow> complex" where
  "rel_vel s = cx (velocity (heap s 1)) - cx (velocity (heap s 0))"

definition momentum :: "PhysicsEngine \<Rightarrow> complex" where
  "momentum s = of_real (mass (heap s 0)) * cx (velocity (heap s 0)) +
                of_real (mass (heap s 1)) * cx (velocity (heap s 1))"

definition specific_energy :: "PhysicsEngine \<Rightarrow> real" where
  "specific_energy s = (cmod (rel_vel s))\<^sup>2 / 2 - mu / cmod (rel_pos s)"

definition ang_momentum :: "PhysicsEngine \<Rightarrow> real" where
  "ang_momentum s = Im (cnj (rel_pos s) * rel_vel s)"

definition drift_inv :: "nat \<Rightarrow> PhysicsEngine \<Rightarrow> bool" where
  "drift_inv k s \<longleftrightarrow>
     bodies s = [0, 1] \<and> mass (heap s 0) = M_sun \<and> mass (heap s 1) = m_earth \<and>
     momentum s = momentum sun_earth \<and>
     ang_momentum s = ang_momentum sun_earth \<and>
     \<bar>specific_energy s - specific_energy sun_earth\<bar> \<le> real k * 210"

subsection \<open>A concrete system\<close>

definition sun0 :: CelestialBody where
  "sun0 = CelestialBody_init ''Sun'' 2 (0, 0) (0, 0) (255, 255, 0)"

definition earth0 :: CelestialBody where
  "earth0 = CelestialBody_init ''Earth'' 3 (3000, 4000) (0, 1) (0, 100, 255)"

definition moon0 :: CelestialBody where
  "moon0 = CelestialBody_init ''Moon'' 5 (300, 400) (1, 0) (200, 200, 200)"

definition heap0 :: "ref \<Rightarrow> CelestialBody" where
  "heap0 = (\<lambda>r. if r = 0 then sun0 else if r = 1 then earth0 else moon0)"

definition engine0 :: PhysicsEngine where
  "engine0 = add_body 1 (add_body 0 (PhysicsEngine_init heap0))"

section \<open>Auxiliary facts\<close>

subsection \<open>Arrays\<close>

lemma vnorm_vsub_commute: "vnorm (vsub p q) = vnorm (vsub q p)"
  by (cases p, cases q) (simp add: power2_commute)

lemma vnorm_nonneg: "0 \<le> vnorm v"
  by (cases v) simp

lemma vnorm_vdiv_self: "vnorm v \<noteq> 0 \<Longrightarrow> vnorm (vdiv v (vnorm v)) = 1"
proof (cases v)
  case (Pair a b)
  assume nz: "vnorm v \<noteq> 0"
  let ?d = "sqrt (a\<^sup>2 + b\<^sup>2)"
  from nz Pair have d: "?d \<noteq> 0" by simp
  have sq: "?d\<^sup>2 = a\<^sup>2 + b\<^sup>2" by (rule real_sqrt_pow2) simp
  with d have nz2: "a\<^sup>2 + b\<^sup>2 \<noteq> 0" by auto
  have "(a / ?d)\<^sup>2 + (b / ?d)\<^sup>2 = (a\<^sup>2 + b\<^sup>2) / ?d\<^sup>2"
    unfolding power_divide add_divide_distrib ..
  also have "\<dots> = 1" unfolding sq using nz2 by simp
  finally have "sqrt ((a / ?d)\<^sup>2 + (b / ?d)\<^sup>2) = 1" by simp
  then show ?thesis using Pair by simp
qed

lemma vnorm_smul: "vnorm (smul k v) = \<bar>k\<bar> * vnorm v"
proof (cases v)
  case (Pair a b)
  have "(k * a)\<^sup>2 + (k * b)\<^sup>2 = k\<^sup>2 * (a\<^sup>2 + b\<^sup>2)"
    by (simp add: power_mult_distrib distrib_left)
  then show ?thesis using Pair by (simp add: real_sqrt_mult)
qed

lemma vsub_neg: "vsub p q = vneg (vsub q p)"
  by (cases p, cases q) simp

lemma vneg_vneg: "vneg (vneg v) = v"
  by (cases v) simp

lemma vdiv_vneg: "vdiv (vneg v) k = vneg (vdiv v k)"
  by (cases v) simp

lemma smul_vneg: "smul k (vneg v) = vneg (smul k v)"
  by (cases v) simp

lemma vnorm_3000_4000: "vnorm (3000, 4000) = 5000"
proof -
  have "sqrt ((5000::real)\<^sup>2) = 5000" by simp
  moreover have "(3000::real)\<^sup>2 + 4000\<^sup>2 = 5000\<^sup>2" by simp
  ultimately show ?thesis by simp
qed

lemma vnorm_300_400: "vnorm (300, 400) = 500"
proof -
  have "sqrt ((500::real)\<^sup>2) = 500" by simp
  moreover have "(300::real)\<^sup>2 + 400\<^sup>2 = 500\<^sup>2" by simp
  ultimately show ?thesis by simp
qed

lemma G_pos: "0 < G"
  by (simp add: G_def)

lemma vadd_assoc: "vadd (vadd u v) w = vadd u (vadd v w)"
  by (cases u, cases v, cases w) simp

lemma vadd_vzero: "vadd v vzero = v"
  by (cases v) (simp add: vzero_def)

lemma vzero_vadd: "vadd vzero v = v"
  by (cases v) (simp add: vzero_def)

subsection \<open>Removal from the list\<close>

lemma list_remove_in:
  "x \<in> set ys \<Longrightarrow> \<exists>pre post. ys = pre @ x # post \<and> x \<notin> set pre \<and> list_remove x ys = Inr (pre @ post)"
proof (induction ys)
  case Nil
  then show ?case by simp
next
  case (Cons y ys)
  show ?case
  proof (cases "y = x")
    case True
    then have "y # ys = [] @ x # ys \<and> x \<notin> set [] \<and> list_remove x (y # ys) = Inr ([] @ ys)"
      by simp
    then show ?thesis by blast
  next
    case False
    with Cons.prems have "x \<in> set ys" by simp
    from Cons.IH[OF this] obtain pre post where
      p: "ys = pre @ x # post" "x \<notin> set pre" "list_remove x ys = Inr (pre @ post)" by blast
    with False have "y # ys = (y # pre) @ x # post \<and> x \<notin> set (y # pre) \<and>
        list_remove x (y # ys) = Inr ((y # pre) @ post)" by simp
    then show ?thesis by blast
  qed
qed

lemma remove_body_heap: "\<exists>s'. remove_body q s = Inr s' \<and> heap s' = heap s"
proof (cases "q \<in> set (bodies s)")
  case True
  from list_remove_in[OF True] obtain pre post where
    "list_remove q (bodies s) = Inr (pre @ post)" by blast
  with True show ?thesis by (simp add: remove_body_def)
next
  case False
  then show ?thesis by (simp add: remove_body_def)
qed

lemma remove_body_time: "\<exists>s'. remove_body q s = Inr s' \<and> time s' = time s"
proof (cases "q \<in> set (bodies s)")
  case True
  from list_remove_in[OF True] obtain pre post where
    "list_remove q (bodies s) = Inr (pre @ post)" by blast
  with True show ?thesis by (simp add: remove_body_def)
next
  case False
  then show ?thesis by (simp add: remove_body_def)
qed

subsection \<open>The two loops of the step\<close>

lemma inner_loop_net_force:
  "inner_loop h body all acc = vadd acc (net_force h all body)"
proof (induction all arbitrary: acc)
  case Nil
  show ?case by (simp add: net_force_def vadd_vzero)
next
  case (Cons other rest)
  show ?case
  proof (cases "body = other")
    case True
    then show ?thesis using Cons.IH[of acc] by (simp add: net_force_def)
  next
    case False
    then have "other \<noteq> body" by simp
    with False show ?thesis
      using Cons.IH[of "vadd acc (calculate_gravitational_force (h body) (h other))"]
      by (simp add: net_force_def vadd_assoc)
  qed
qed

lemma inner_loop_vzero: "inner_loop h body all vzero = net_force h all body"
  by (simp add: inner_loop_net_force vzero_vadd)

lemma force_cong:
  "position a' = position a \<Longrightarrow> mass a' = mass a \<Longrightarrow> position b' = position b \<Longrightarrow>
   mass b' = mass b \<Longrightarrow>
   calculate_gravitational_force a' b' = calculate_gravitational_force a b"
  by (simp add: calculate_gravitational_force_def Let_def)

lemma net_force_cong:
  assumes "\<And>r. position (h' r) = position (h r)" and "\<And>r. mass (h' r) = mass (h r)"
  shows "net_force h' all body = net_force h all body"
proof -
  have "\<And>other. calculate_gravitational_force (h' body) (h' other) =
      calculate_gravitational_force (h body) (h other)"
    by (rule force_cong) (simp_all add: assms)
  then show ?thesis by (simp add: net_force_def)
qed

lemma apply_force_twice: "apply_force f (apply_force g b) = apply_force f b"
  by (simp add: apply_force_def)

lemma force_loop_char:
  "force_loop bs all h r =
     (if r \<in> set bs then apply_force (net_force h all r) (h r) else h r)"
proof (induction bs arbitrary: h)
  case Nil
  show ?case by simp
next
  case (Cons b bs)
  let ?h = "h(b := apply_force (net_force h all b) (h b))"
  have nf: "net_force ?h all r = net_force h all r" for r
    by (rule net_force_cong) (simp_all add: apply_force_def)
  have "force_loop (b # bs) all h r = force_loop bs all ?h r"
    by (simp add: inner_loop_vzero)
  also have "\<dots> = (if r \<in> set bs then apply_force (net_force h all r) (?h r) else ?h r)"
    by (simp add: Cons.IH nf)
  also have "\<dots> = (if r \<in> set (b # bs) then apply_force (net_force h all r) (h r) else h r)"
    by (simp add: apply_force_twice)
  finally show ?case .
qed

lemma move_loop_char:
  "move_loop bs dt h r = (CelestialBody_update dt ^^ count_list bs r) (h r)"
proof (induction bs arbitrary: h)
  case Nil
  show ?case by simp
next
  case (Cons b bs)
  show ?case by (simp add: Cons.IH funpow_swap1)
qed

lemma update_heap:
  "heap (update dt s) r =
     (CelestialBody_update dt ^^ count_list (bodies s) r)
       (if r \<in> set (bodies s) then apply_force (net_force (heap s) (bodies s) r) (heap s r)
        else heap s r)"
  by (simp add: update_def Let_def move_loop_char force_loop_char)

lemma funpow_mass: "mass ((CelestialBody_update dt ^^ n) b) = mass b"
  by (induction n) (simp_all add: CelestialBody_update_def Let_def)

lemma update_mass: "mass (heap (update dt s) r) = mass (heap s r)"
  by (simp add: update_heap funpow_mass apply_force_def)

lemma update_time: "time (update dt s) = time s + dt"
  by (simp add: update_def Let_def)

lemma funpow_update_time: "time ((update dt ^^ k) s) = time s + real k * dt"
  by (induction k) (simp_all add: update_time algebra_simps)

lemma count_list_notin: "r \<notin> set bs \<Longrightarrow> count_list bs r = 0"
  by (induction bs) auto

subsection \<open>The bounded trajectory\<close>

lemma trajectory_step:
  assumes "length (trajectory b) \<le> 500"
  shows "trajectory (CelestialBody_update dt b) =
           drop (length (trajectory b) + 1 - 500)
             (trajectory b @ [position (CelestialBody_update dt b)])"
proof (cases "length (trajectory b) = 500")
  case True
  then have ne: "trajectory b \<noteq> []" by auto
  from True ne show ?thesis
    by (simp add: CelestialBody_update_def Let_def drop_Suc)
next
  case False
  with assms have "length (trajectory b) < 500" by simp
  then show ?thesis
    by (simp add: CelestialBody_update_def Let_def)
qed

lemma trajectory_step_length:
  "length (trajectory b) \<le> 500 \<Longrightarrow> length (trajectory (CelestialBody_update dt b)) \<le> 500"
  by (simp add: trajectory_step)

lemma trajectory_fold:
  assumes "length (trajectory b) \<le> 500"
  shows "trajectory (fold CelestialBody_update dts b) =
           drop (length (trajectory b) + length dts - 500)
             (trajectory b @ positions_after dts b)"
  using assms
proof (induction dts arbitrary: b)
  case Nil
  then show ?case by simp
next
  case (Cons dt dts)
  let ?b = "CelestialBody_update dt b"
  let ?t = "trajectory b"
  let ?p = "position ?b"
  let ?rest = "positions_after dts ?b"
  let ?k = "length ?t + 1 - 500"
  have st: "trajectory ?b = drop ?k (?t @ [?p])" using Cons.prems by (rule trajectory_step)
  have len: "length (trajectory ?b) \<le> 500" using Cons.prems by (rule trajectory_step_length)
  have k: "?k \<le> length (?t @ [?p])" by simp
  have "trajectory (fold CelestialBody_update (dt # dts) b) =
        drop (length (trajectory ?b) + length dts - 500) (trajectory ?b @ ?rest)"
    using Cons.IH[OF len] by simp
  also have "trajectory ?b @ ?rest = drop ?k ((?t @ [?p]) @ ?rest)"
    unfolding st using k by simp
  also have "drop (length (trajectory ?b) + length dts - 500) (drop ?k ((?t @ [?p]) @ ?rest)) =
        drop (length (trajectory ?b) + length dts - 500 + ?k) ((?t @ [?p]) @ ?rest)"
    by (simp only: drop_drop)
  also have "length (trajectory ?b) + length dts - 500 + ?k = length ?t + length (dt # dts) - 500"
    unfolding st using Cons.prems by (cases "length ?t = 500") auto
  finally show ?case by simp
qed

lemma fold_length_le:
  "length (trajectory b) \<le> 500 \<Longrightarrow> length (trajectory (fold CelestialBody_update dts b)) \<le> 500"
  by (induction dts arbitrary: b) (simp_all add: trajectory_step_length)

lemma length_positions_after: "length (positions_after dts b) = length dts"
  by (induction dts arbitrary: b) simp_all

lemma positions_after_nth:
  "k < length dts \<Longrightarrow>
   positions_after dts b ! k = position (fold CelestialBody_update (take (Suc k) dts) b)"
proof (induction dts arbitrary: b k)
  case Nil
  then show ?case by simp
next
  case (Cons dt dts)
  show ?case
  proof (cases k)
    case 0
    then show ?thesis by simp
  next
    case (Suc j)
    with Cons.prems have "j < length dts" by simp
    from Cons.IH[OF this] Suc show ?thesis by simp
  qed
qed

lemma positions_after_map:
  "positions_after dts b =
     map (\<lambda>k. position (fold CelestialBody_update (take (Suc k) dts) b)) [0..<length dts]"
  by (rule nth_equalityI) (simp_all add: length_positions_after positions_after_nth)

subsection \<open>The concrete system\<close>

lemma engine0_bodies: "bodies engine0 = [0, 1]"
  by (simp add: engine0_def add_body_def PhysicsEngine_init_def)

lemma engine0_heap: "heap engine0 = heap0"
  by (simp add: engine0_def add_body_def PhysicsEngine_init_def)

lemma force_sun0_earth0:
  "calculate_gravitational_force sun0 earth0 = (G * 18 / 125000000, G * 24 / 125000000)"
  by (simp add: calculate_gravitational_force_def Let_def sun0_def earth0_def
      CelestialBody_init_def vnorm_3000_4000 del: vnorm.simps)

subsection \<open>One step of the relative motion\<close>

text \<open>
  In relative coordinates a step of the two-body system is
  \<open>w' = w - (dt \<mu> / |r|\<^sup>3) r\<close>, \<open>r' = r + dt w'\<close>. It preserves the angular momentum
  exactly, and changes the energy \<open>|w|\<^sup>2 / 2 - \<mu> / |r|\<close> by a term of second order in
  \<open>dt\<close>, bounded as long as the bodies stay apart and slow; the energy and the angular
  momentum in turn bound the distance from below and the speed from above.
\<close>

lemma cmod_add_mult_sq:
  fixes a r :: complex and k :: real
  shows "(cmod (a + of_real k * r))\<^sup>2 = (cmod a)\<^sup>2 + 2 * k * Re (cnj r * a) + k\<^sup>2 * (cmod r)\<^sup>2"
  unfolding cmod_power2 by (simp add: algebra_simps power2_eq_square)

lemma Im_cnj_self: "Im (cnj z * z) = 0"
  by (simp add: algebra_simps)

lemma kepler_angular:
  fixes r w :: complex and k dt :: real
  defines "w' \<equiv> w - of_real k * r"
  defines "r' \<equiv> r + of_real dt * w'"
  shows "Im (cnj r' * w') = Im (cnj r * w)"
  by (simp add: w'_def r'_def algebra_simps)

lemma abs_half_diff:
  fixes A B C :: real
  assumes "0 \<le> A" "0 \<le> B" "A \<le> C" "B \<le> C"
  shows "\<bar>(A - B) / 2\<bar> \<le> C / 2"
  using assms by (simp add: abs_le_iff)

lemma kepler_step_energy:
  fixes r w :: complex and \<mu> dt \<rho> W :: real
  defines "d \<equiv> cmod r"
  defines "w' \<equiv> w - of_real (dt * \<mu> / d ^ 3) * r"
  defines "r' \<equiv> r + of_real dt * w'"
  assumes pos: "0 < \<mu>" "0 < dt" "0 < \<rho>"
    and far: "\<rho> \<le> cmod r" "\<rho> \<le> cmod r'"
    and slow: "cmod w' \<le> W"
  shows "\<bar>((cmod w')\<^sup>2 / 2 - \<mu> / cmod r') - ((cmod w)\<^sup>2 / 2 - \<mu> / cmod r)\<bar>
           \<le> 3 * \<mu> * dt\<^sup>2 * W\<^sup>2 / (2 * \<rho> ^ 3) + dt\<^sup>2 * \<mu>\<^sup>2 / (2 * \<rho> ^ 4)"
proof -
  define d' where "d' = cmod r'"
  define \<omega> where "\<omega> = cmod w'"
  define s where "s = Re (cnj r * w')"
  define k where "k = dt * \<mu> / d ^ 3"
  define \<delta> where "\<delta> = d' - d"
  have dpos: "0 < d" and d'pos: "0 < d'" using pos far unfolding d_def d'_def by linarith+
  have dge: "\<rho> \<le> d" and d'ge: "\<rho> \<le> d'" using far by (simp_all add: d_def d'_def)
  have \<omega>0: "0 \<le> \<omega>" by (simp add: \<omega>_def)
  have \<omega>W: "\<omega> \<le> W" using slow by (simp add: \<omega>_def)
  have w_eq: "w = w' + of_real k * r" by (simp add: w'_def k_def)
  have H1: "(cmod w)\<^sup>2 = \<omega>\<^sup>2 + 2 * k * s + k\<^sup>2 * d\<^sup>2"
    unfolding w_eq[THEN arg_cong, of "\<lambda>z. (cmod z)\<^sup>2"] \<omega>_def s_def d_def
    by (rule cmod_add_mult_sq)
  have "(cmod r')\<^sup>2 = (cmod r)\<^sup>2 + 2 * dt * Re (cnj w' * r) + dt\<^sup>2 * (cmod w')\<^sup>2"
    unfolding r'_def by (rule cmod_add_mult_sq)
  moreover have "Re (cnj w' * r) = Re (cnj r * w')" by (simp add: algebra_simps)
  ultimately have H2: "d'\<^sup>2 = d\<^sup>2 + 2 * dt * s + dt\<^sup>2 * \<omega>\<^sup>2"
    by (simp add: d'_def d_def s_def \<omega>_def)
  have "\<bar>cmod r' - cmod r\<bar> \<le> cmod (r' - r)" by (rule norm_triangle_ineq3)
  moreover have "cmod (r' - r) = dt * \<omega>"
    using pos by (simp add: r'_def norm_mult \<omega>_def)
  ultimately have \<delta>abs: "\<bar>\<delta>\<bar> \<le> dt * \<omega>" by (simp add: \<delta>_def d'_def d_def)
  have \<delta>sq: "\<delta>\<^sup>2 \<le> dt\<^sup>2 * \<omega>\<^sup>2"
  proof -
    have "\<bar>\<delta>\<bar>\<^sup>2 \<le> (dt * \<omega>)\<^sup>2" using \<delta>abs by (rule power_mono) simp
    then show ?thesis by (simp add: power_mult_distrib)
  qed
  define N where "N = d\<^sup>2 * \<delta> - dt * s * d'"
  have dts: "dt * s = (d'\<^sup>2 - d\<^sup>2 - dt\<^sup>2 * \<omega>\<^sup>2) / 2" using H2 by simp
  have N_eq: "N = (d' * (dt\<^sup>2 * \<omega>\<^sup>2) - \<delta>\<^sup>2 * (2 * d + d')) / 2"
    unfolding N_def dts \<delta>_def by (simp add: field_simps power2_eq_square)
  have N_abs: "\<bar>N\<bar> \<le> (dt\<^sup>2 * \<omega>\<^sup>2) * (2 * d + d') / 2"
    unfolding N_eq
  proof (rule abs_half_diff)
    show "0 \<le> d' * (dt\<^sup>2 * \<omega>\<^sup>2)" using d'pos by simp
    show "0 \<le> \<delta>\<^sup>2 * (2 * d + d')" using dpos d'pos by simp
    have "d' * (dt\<^sup>2 * \<omega>\<^sup>2) \<le> (2 * d + d') * (dt\<^sup>2 * \<omega>\<^sup>2)"
      using dpos by (intro mult_right_mono) simp_all
    then show "d' * (dt\<^sup>2 * \<omega>\<^sup>2) \<le> dt\<^sup>2 * \<omega>\<^sup>2 * (2 * d + d')" by (simp add: mult.commute)
    show "\<delta>\<^sup>2 * (2 * d + d') \<le> dt\<^sup>2 * \<omega>\<^sup>2 * (2 * d + d')"
      using \<delta>sq dpos d'pos by (intro mult_right_mono) simp_all
  qed
  have diff: "((cmod w')\<^sup>2 / 2 - \<mu> / cmod r') - ((cmod w)\<^sup>2 / 2 - \<mu> / cmod r)
      = \<mu> * N / (d ^ 3 * d') - dt\<^sup>2 * \<mu>\<^sup>2 / (2 * d ^ 4)"
  proof -
    have "((cmod w')\<^sup>2 / 2 - \<mu> / cmod r') - ((cmod w)\<^sup>2 / 2 - \<mu> / cmod r)
        = - k * s - k\<^sup>2 * d\<^sup>2 / 2 + \<mu> / d - \<mu> / d'"
      unfolding H1 by (simp add: \<omega>_def d_def d'_def field_simps)
    also have "\<dots> = \<mu> * N / (d ^ 3 * d') - dt\<^sup>2 * \<mu>\<^sup>2 / (2 * d ^ 4)"
      using dpos d'pos unfolding N_def k_def \<delta>_def
      by (simp add: field_simps power2_eq_square power3_eq_cube power4_eq_xxxx)
    finally show ?thesis .
  qed
  have \<rho>3: "\<rho> ^ 3 \<le> d ^ 3" using pos dge by (intro power_mono) simp_all
  have \<rho>4: "\<rho> ^ 4 \<le> d ^ 4" using pos dge by (intro power_mono) simp_all
  have \<rho>21: "\<rho> ^ 3 \<le> d\<^sup>2 * d'"
  proof -
    have "\<rho>\<^sup>2 * \<rho> \<le> d\<^sup>2 * d'"
      using pos dge d'ge by (intro mult_mono power_mono) simp_all
    then show ?thesis by (simp add: power3_eq_cube power2_eq_square)
  qed
  have \<rho>3pos: "0 < \<rho> ^ 3" and \<rho>4pos: "0 < \<rho> ^ 4" using pos by simp_all
  have geo: "(2 * d + d') / (d ^ 3 * d') \<le> 3 / \<rho> ^ 3"
  proof -
    have "(2 * d + d') / (d ^ 3 * d') = 2 / (d\<^sup>2 * d') + 1 / d ^ 3"
      using dpos d'pos by (simp add: field_simps power2_eq_square power3_eq_cube)
    also have "\<dots> \<le> 2 / \<rho> ^ 3 + 1 / \<rho> ^ 3"
      using \<rho>3pos \<rho>21 \<rho>3 by (intro add_mono frac_le) simp_all
    also have "\<dots> = 3 / \<rho> ^ 3" by simp
    finally show ?thesis .
  qed
  have \<omega>sq: "\<omega>\<^sup>2 \<le> W\<^sup>2" using \<omega>0 \<omega>W by (intro power_mono) simp_all
  have den: "0 < d ^ 3 * d'" using dpos d'pos by simp
  have T1: "\<bar>\<mu> * N / (d ^ 3 * d')\<bar> \<le> 3 * \<mu> * dt\<^sup>2 * W\<^sup>2 / (2 * \<rho> ^ 3)"
  proof -
    have "\<bar>\<mu> * N / (d ^ 3 * d')\<bar> = \<mu> * \<bar>N\<bar> / (d ^ 3 * d')"
      using pos dpos d'pos by (simp add: abs_mult)
    also have "\<dots> \<le> \<mu> * ((dt\<^sup>2 * \<omega>\<^sup>2) * (2 * d + d') / 2) / (d ^ 3 * d')"
      using pos den N_abs by (intro divide_right_mono mult_left_mono) simp_all
    also have "\<dots> = (\<mu> * dt\<^sup>2 * \<omega>\<^sup>2 / 2) * ((2 * d + d') / (d ^ 3 * d'))"
      by simp
    also have "\<dots> \<le> (\<mu> * dt\<^sup>2 * \<omega>\<^sup>2 / 2) * (3 / \<rho> ^ 3)"
      using pos geo by (intro mult_left_mono) simp_all
    also have "\<dots> \<le> (\<mu> * dt\<^sup>2 * W\<^sup>2 / 2) * (3 / \<rho> ^ 3)"
      using pos \<omega>sq by (intro mult_right_mono divide_right_mono mult_left_mono) simp_all
    also have "\<dots> = 3 * \<mu> * dt\<^sup>2 * W\<^sup>2 / (2 * \<rho> ^ 3)" by simp
    finally show ?thesis .
  qed
  have T2: "dt\<^sup>2 * \<mu>\<^sup>2 / (2 * d ^ 4) \<le> dt\<^sup>2 * \<mu>\<^sup>2 / (2 * \<rho> ^ 4)"
    using \<rho>4 \<rho>4pos by (intro frac_le) simp_all
  have T2pos: "0 \<le> dt\<^sup>2 * \<mu>\<^sup>2 / (2 * d ^ 4)" using dpos by simp
  show ?thesis unfolding diff using T1 T2 T2pos by linarith
qed

lemma half_le_chain:
  fixes x a b e q :: real
  assumes "x / 2 - a \<le> - e" "2 * (b - e) \<le> q" "a \<le> b"
  shows "x \<le> q"
  using assms unfolding right_diff_distrib by linarith

lemma kepler_bounds:
  fixes r w :: complex and \<mu> \<eta> \<rho> W L :: real
  assumes pos: "0 < \<mu>" "0 < \<rho>" "0 \<le> W" "0 \<le> \<eta>" and L0: "L \<noteq> 0"
    and ang: "Im (cnj r * w) = L"
    and en: "(cmod w)\<^sup>2 / 2 - \<mu> / cmod r \<le> - \<eta>"
    and num1: "2 * \<eta> * \<rho> \<le> \<mu>"
    and num2: "0 < L\<^sup>2 / 2 - \<mu> * \<rho> + \<eta> * \<rho>\<^sup>2"
    and num3: "2 * (\<mu> / \<rho> - \<eta>) \<le> W\<^sup>2"
  shows "\<rho> \<le> cmod r \<and> cmod w \<le> W"
proof -
  define d where "d = cmod r"
  define \<omega> where "\<omega> = cmod w"
  have "r \<noteq> 0" using ang L0 by auto
  then have dpos: "0 < d" by (simp add: d_def)
  have "\<bar>L\<bar> \<le> cmod (cnj r * w)" unfolding ang[symmetric] by (rule abs_Im_le_cmod)
  also have "\<dots> = d * \<omega>" by (simp add: norm_mult d_def \<omega>_def)
  finally have "\<bar>L\<bar>\<^sup>2 \<le> (d * \<omega>)\<^sup>2" by (intro power_mono) simp_all
  then have Lsq: "L\<^sup>2 \<le> d\<^sup>2 * \<omega>\<^sup>2" by (simp add: power_mult_distrib)
  have en': "\<omega>\<^sup>2 / 2 - \<mu> / d \<le> - \<eta>" using en by (simp add: d_def \<omega>_def)
  have "(\<omega>\<^sup>2 / 2 - \<mu> / d) * d\<^sup>2 \<le> (- \<eta>) * d\<^sup>2"
    using en' by (intro mult_right_mono) simp_all
  moreover have "(\<omega>\<^sup>2 / 2 - \<mu> / d) * d\<^sup>2 = d\<^sup>2 * \<omega>\<^sup>2 / 2 - \<mu> * d"
    using dpos by (simp add: field_simps power2_eq_square)
  ultimately have g: "L\<^sup>2 / 2 - \<mu> * d + \<eta> * d\<^sup>2 \<le> 0" using Lsq by linarith
  have far: "\<rho> \<le> d"
  proof (rule ccontr)
    assume "\<not> \<rho> \<le> d"
    then have lt: "d < \<rho>" by simp
    have "\<eta> * (d + \<rho>) \<le> \<eta> * (2 * \<rho>)" using lt pos by (intro mult_left_mono) simp_all
    with num1 have "\<eta> * (d + \<rho>) - \<mu> \<le> 0" by linarith
    with lt have "0 \<le> (d - \<rho>) * (\<eta> * (d + \<rho>) - \<mu>)"
      by (intro mult_nonpos_nonpos) simp_all
    moreover have "L\<^sup>2 / 2 - \<mu> * d + \<eta> * d\<^sup>2 =
        (L\<^sup>2 / 2 - \<mu> * \<rho> + \<eta> * \<rho>\<^sup>2) + (d - \<rho>) * (\<eta> * (d + \<rho>) - \<mu>)"
      by (simp add: algebra_simps power2_eq_square)
    ultimately show False using g num2 by linarith
  qed
  have "\<mu> / d \<le> \<mu> / \<rho>" using far pos by (intro divide_left_mono) simp_all
  with en' num3 have "\<omega>\<^sup>2 \<le> W\<^sup>2" by (rule half_le_chain)
  then have "\<omega> \<le> W" using pos(3) by (rule power2_le_imp_le)
  with far show ?thesis by (simp add: d_def \<omega>_def)
qed

lemma kepler_next_bounds:
  fixes r w :: complex and \<mu> dt \<rho> W :: real
  defines "w' \<equiv> w - of_real (dt * \<mu> / cmod r ^ 3) * r"
  defines "r' \<equiv> r + of_real dt * w'"
  assumes pos: "0 < \<mu>" "0 < dt" "0 < \<rho>"
    and far: "\<rho> \<le> cmod r" and slow: "cmod w \<le> W"
  shows "cmod w' \<le> W + dt * \<mu> / \<rho>\<^sup>2 \<and> \<rho> - dt * (W + dt * \<mu> / \<rho>\<^sup>2) \<le> cmod r'"
proof -
  define d where "d = cmod r"
  have dpos: "0 < d" using pos far unfolding d_def by linarith
  have "cmod w' \<le> cmod w + cmod (of_real (dt * \<mu> / d ^ 3) * r)"
    unfolding w'_def d_def by (rule norm_triangle_ineq4)
  also have "cmod (of_real (dt * \<mu> / d ^ 3) * r) = dt * \<mu> / d\<^sup>2"
  proof -
    define k where "k = dt * \<mu> / d ^ 3"
    have k0: "0 \<le> k" using pos dpos by (simp add: k_def)
    have "cmod (of_real k * r) = k * d" using k0 by (simp add: norm_mult d_def)
    also have "\<dots> = dt * \<mu> / d\<^sup>2"
      using dpos by (simp add: k_def power2_eq_square power3_eq_cube)
    finally show ?thesis by (simp add: k_def)
  qed
  also have "dt * \<mu> / d\<^sup>2 \<le> dt * \<mu> / \<rho>\<^sup>2"
    using pos far dpos unfolding d_def by (intro divide_left_mono power_mono) simp_all
  finally have w'le: "cmod w' \<le> W + dt * \<mu> / \<rho>\<^sup>2" using slow by linarith
  have "cmod r - cmod (of_real dt * w') \<le> cmod r'"
    unfolding r'_def by (rule norm_diff_ineq)
  moreover have "cmod (of_real dt * w') = dt * cmod w'" using pos by (simp add: norm_mult)
  moreover have "dt * cmod w' \<le> dt * (W + dt * \<mu> / \<rho>\<^sup>2)"
    using w'le pos by (intro mult_left_mono) simp_all
  ultimately have "\<rho> - dt * (W + dt * \<mu> / \<rho>\<^sup>2) \<le> cmod r'" using far by linarith
  with w'le show ?thesis by simp
qed

lemma kepler_step_drift:
  fixes r w :: complex and \<mu> dt \<eta> \<rho> W W' \<rho>' c L :: real
  defines "w' \<equiv> w - of_real (dt * \<mu> / cmod r ^ 3) * r"
  defines "r' \<equiv> r + of_real dt * w'"
  assumes pos: "0 < \<mu>" "0 < dt" "0 < \<rho>" "0 < \<rho>'" "0 \<le> W" "0 \<le> \<eta>" and L0: "L \<noteq> 0"
    and ang: "Im (cnj r * w) = L"
    and en: "(cmod w)\<^sup>2 / 2 - \<mu> / cmod r \<le> - \<eta>"
    and num1: "2 * \<eta> * \<rho> \<le> \<mu>"
    and num2: "0 < L\<^sup>2 / 2 - \<mu> * \<rho> + \<eta> * \<rho>\<^sup>2"
    and num3: "2 * (\<mu> / \<rho> - \<eta>) \<le> W\<^sup>2"
    and numW: "W + dt * \<mu> / \<rho>\<^sup>2 \<le> W'"
    and num\<rho>: "\<rho>' \<le> \<rho> - dt * W'"
    and numc: "3 * \<mu> * dt\<^sup>2 * W'\<^sup>2 / (2 * \<rho>' ^ 3) + dt\<^sup>2 * \<mu>\<^sup>2 / (2 * \<rho>' ^ 4) \<le> c"
  shows "\<rho> \<le> cmod r \<and> Im (cnj r' * w') = L \<and>
         \<bar>((cmod w')\<^sup>2 / 2 - \<mu> / cmod r') - ((cmod w)\<^sup>2 / 2 - \<mu> / cmod r)\<bar> \<le> c"
proof -
  have b: "\<rho> \<le> cmod r \<and> cmod w \<le> W"
    using pos(1,3,5,6) L0 ang en num1 num2 num3 by (rule kepler_bounds)
  then have far: "\<rho> \<le> cmod r" and slow: "cmod w \<le> W" by simp_all
  have nb: "cmod w' \<le> W + dt * \<mu> / \<rho>\<^sup>2 \<and> \<rho> - dt * (W + dt * \<mu> / \<rho>\<^sup>2) \<le> cmod r'"
    unfolding w'_def r'_def using pos(1,2,3) far slow by (rule kepler_next_bounds)
  then have w'W: "cmod w' \<le> W'" using numW by linarith
  have "dt * (W + dt * \<mu> / \<rho>\<^sup>2) \<le> dt * W'"
    using numW pos by (intro mult_left_mono) simp_all
  with nb num\<rho> have far': "\<rho>' \<le> cmod r'" by linarith
  have W'0: "0 \<le> W'" using w'W norm_ge_zero[of w'] by linarith
  have "0 \<le> dt * W'" using pos W'0 by simp
  with num\<rho> far have far0: "\<rho>' \<le> cmod r" by linarith
  have "\<bar>((cmod w')\<^sup>2 / 2 - \<mu> / cmod r') - ((cmod w)\<^sup>2 / 2 - \<mu> / cmod r)\<bar>
           \<le> 3 * \<mu> * dt\<^sup>2 * W'\<^sup>2 / (2 * \<rho>' ^ 3) + dt\<^sup>2 * \<mu>\<^sup>2 / (2 * \<rho>' ^ 4)"
    unfolding w'_def r'_def
    using pos(1,2,4) far0 far'[unfolded r'_def w'_def] w'W[unfolded w'_def]
    by (rule kepler_step_energy)
  then have "\<bar>((cmod w')\<^sup>2 / 2 - \<mu> / cmod r') - ((cmod w)\<^sup>2 / 2 - \<mu> / cmod r)\<bar> \<le> c"
    using numc by (rule order_trans)
  moreover have "Im (cnj r' * w') = L"
    unfolding ang[symmetric] w'_def r'_def by (rule kepler_angular)
  ultimately show ?thesis using far by simp
qed

subsection \<open>The step of the engine in relative coordinates\<close>

lemma cx_vzero: "cx vzero = 0"
  by (simp add: cx_def vzero_def complex_eq_iff)

lemma cx_vadd: "cx (vadd p q) = cx p + cx q"
  by (cases p, cases q) (simp add: cx_def complex_eq_iff)

lemma cx_vsub: "cx (vsub p q) = cx p - cx q"
  by (cases p, cases q) (simp add: cx_def complex_eq_iff)

lemma cx_vmul: "cx (vmul p k) = of_real k * cx p"
  by (cases p) (simp add: cx_def complex_eq_iff)

lemma cx_smul: "cx (smul k p) = of_real k * cx p"
  by (cases p) (simp add: cx_def complex_eq_iff)

lemma cx_vdiv: "cx (vdiv p k) = cx p / of_real k"
  by (cases p) (simp add: cx_def complex_eq_iff)

lemma vnorm_cx: "vnorm p = cmod (cx p)"
  by (cases p) (simp add: cx_def cmod_def)

lemma force_cx:
  assumes "1000 \<le> cmod (cx (position b) - cx (position a))"
  shows "cx (calculate_gravitational_force a b) =
           of_real (G * mass a * mass b / (cmod (cx (position b) - cx (position a))) ^ 3) *
             (cx (position b) - cx (position a))"
proof -
  define d where "d = cmod (cx (position b) - cx (position a))"
  have vn: "vnorm (vsub (position b) (position a)) = d"
    by (simp add: vnorm_cx cx_vsub d_def)
  have dpos: "0 < d" using assms unfolding d_def by linarith
  have "calculate_gravitational_force a b =
      smul (G * mass a * mass b / d\<^sup>2) (vdiv (vsub (position b) (position a)) d)"
    using assms unfolding calculate_gravitational_force_def Let_def vn d_def[symmetric]
    by simp
  then have "cx (calculate_gravitational_force a b) =
      of_real (G * mass a * mass b / d\<^sup>2) * ((cx (position b) - cx (position a)) / of_real d)"
    by (simp add: cx_smul cx_vdiv cx_vsub)
  also have "\<dots> = of_real (G * mass a * mass b / d ^ 3) * (cx (position b) - cx (position a))"
    using dpos by (simp add: power2_eq_square power3_eq_cube)
  finally show ?thesis unfolding d_def .
qed

lemma net_force_two:
  assumes "a \<noteq> b"
  shows "net_force h [a, b] a = calculate_gravitational_force (h a) (h b)"
    and "net_force h [a, b] b = calculate_gravitational_force (h b) (h a)"
  using assms by (auto simp add: net_force_def vadd_vzero)

lemma update_two_heap:
  assumes "bodies s = [0, 1]"
  shows "heap (update dt s) 0 =
           CelestialBody_update dt
             (apply_force (calculate_gravitational_force (heap s 0) (heap s 1)) (heap s 0))"
    and "heap (update dt s) 1 =
           CelestialBody_update dt
             (apply_force (calculate_gravitational_force (heap s 1) (heap s 0)) (heap s 1))"
    and "bodies (update dt s) = [0, 1]"
proof -
  have ne: "(0::nat) \<noteq> 1" by simp
  show "heap (update dt s) 0 =
           CelestialBody_update dt
             (apply_force (calculate_gravitational_force (heap s 0) (heap s 1)) (heap s 0))"
    unfolding update_heap assms net_force_two(1)[OF ne] by simp
  show "heap (update dt s) 1 =
           CelestialBody_update dt
             (apply_force (calculate_gravitational_force (heap s 1) (heap s 0)) (heap s 1))"
    unfolding update_heap assms net_force_two(2)[OF ne] by simp
  show "bodies (update dt s) = [0, 1]" using assms by (simp add: update_def Let_def)
qed

lemma cx_velocity_update:
  "cx (velocity (CelestialBody_update dt (apply_force f b))) =
     cx (velocity b) + of_real dt * (cx f / of_real (mass b))"
  by (simp add: CelestialBody_update_def Let_def apply_force_def cx_vadd cx_vmul cx_vdiv)

lemma cx_position_update:
  "cx (position (CelestialBody_update dt b)) =
     cx (position b) + of_real dt * cx (velocity (CelestialBody_update dt b))"
  by (simp add: CelestialBody_update_def Let_def cx_vadd cx_vmul)

lemma position_apply_force: "position (apply_force f b) = position b"
  by (simp add: apply_force_def)

lemma scale_div:
  fixes z :: complex
  assumes "m \<noteq> 0"
  shows "of_real dt * (of_real (k * m) * z / of_real m) = of_real (dt * k) * z"
  using assms by simp

lemma flip_diff:
  fixes x a b :: complex
  shows "x + of_real k * (a - b) = x - of_real k * (b - a)"
  by (simp add: algebra_simps)

lemma two_body_step:
  fixes s :: PhysicsEngine and dt :: real
  defines "M \<equiv> mass (heap s 0)" and "m \<equiv> mass (heap s 1)"
  defines "d \<equiv> cmod (rel_pos s)"
  assumes two: "bodies s = [0, 1]" and mpos: "0 < M" "0 < m" and far: "1000 \<le> d"
  shows "bodies (update dt s) = [0, 1]"
    and "mass (heap (update dt s) 0) = M"
    and "mass (heap (update dt s) 1) = m"
    and "rel_vel (update dt s) = rel_vel s - of_real (dt * (G * (M + m)) / d ^ 3) * rel_pos s"
    and "rel_pos (update dt s) = rel_pos s + of_real dt * rel_vel (update dt s)"
    and "momentum (update dt s) = momentum s"
proof -
  let ?p0 = "cx (position (heap s 0))" and ?p1 = "cx (position (heap s 1))"
  let ?v0 = "cx (velocity (heap s 0))" and ?v1 = "cx (velocity (heap s 1))"
  have far01: "1000 \<le> cmod (?p1 - ?p0)" using far by (simp add: d_def rel_pos_def)
  have sym: "cmod (?p0 - ?p1) = cmod (?p1 - ?p0)" by (rule norm_minus_commute)
  have far10: "1000 \<le> cmod (?p0 - ?p1)" using far01 sym by simp
  have dd: "cmod (?p1 - ?p0) = d" by (simp add: d_def rel_pos_def)
  have dpos: "0 < d" using far by linarith
  have f0: "cx (calculate_gravitational_force (heap s 0) (heap s 1)) =
      of_real (G * M * m / d ^ 3) * (?p1 - ?p0)"
    unfolding M_def m_def dd[symmetric] by (rule force_cx[OF far01])
  have f1: "cx (calculate_gravitational_force (heap s 1) (heap s 0)) =
      of_real (G * m * M / d ^ 3) * (?p0 - ?p1)"
    unfolding M_def m_def dd[symmetric] sym[symmetric] by (rule force_cx[OF far10])
  have v0: "cx (velocity (heap (update dt s) 0)) =
      ?v0 + of_real (dt * (G * m) / d ^ 3) * (?p1 - ?p0)"
    unfolding update_two_heap(1)[OF two] cx_velocity_update f0 M_def[symmetric]
    using mpos by simp
  have k1: "G * m * M / d ^ 3 = (G * M / d ^ 3) * m" by simp
  have "cx (velocity (heap (update dt s) 1)) =
      ?v1 + of_real dt * (of_real ((G * M / d ^ 3) * m) * (?p0 - ?p1) / of_real m)"
    unfolding update_two_heap(2)[OF two] cx_velocity_update f1 m_def[symmetric] k1 ..
  also have "of_real dt * (of_real ((G * M / d ^ 3) * m) * (?p0 - ?p1) / of_real m) =
      of_real (dt * (G * M / d ^ 3)) * (?p0 - ?p1)"
    using mpos(2) by (intro scale_div) simp
  also have "?v1 + of_real (dt * (G * M / d ^ 3)) * (?p0 - ?p1) =
      ?v1 - of_real (dt * (G * M) / d ^ 3) * (?p1 - ?p0)"
    unfolding times_divide_eq_right by (rule flip_diff)
  finally have v1: "cx (velocity (heap (update dt s) 1)) =
      ?v1 - of_real (dt * (G * M) / d ^ 3) * (?p1 - ?p0)" .
  have p0: "cx (position (heap (update dt s) 0)) =
      ?p0 + of_real dt * cx (velocity (heap (update dt s) 0))"
    unfolding update_two_heap(1)[OF two] cx_position_update by (simp add: position_apply_force)
  have p1: "cx (position (heap (update dt s) 1)) =
      ?p1 + of_real dt * cx (velocity (heap (update dt s) 1))"
    unfolding update_two_heap(2)[OF two] cx_position_update by (simp add: position_apply_force)
  show "bodies (update dt s) = [0, 1]" by (rule update_two_heap(3)[OF two])
  show "mass (heap (update dt s) 0) = M" by (simp add: update_mass M_def)
  show "mass (heap (update dt s) 1) = m" by (simp add: update_mass m_def)
  show rv: "rel_vel (update dt s) = rel_vel s - of_real (dt * (G * (M + m)) / d ^ 3) * rel_pos s"
    unfolding rel_vel_def rel_pos_def v0 v1
    by (simp add: algebra_simps add_divide_distrib)
  show "rel_pos (update dt s) = rel_pos s + of_real dt * rel_vel (update dt s)"
    unfolding rel_pos_def p0 p1 rel_vel_def by (simp add: algebra_simps)
  show "momentum (update dt s) = momentum s"
    unfolding momentum_def v0 v1 update_mass M_def[symmetric] m_def[symmetric]
    by (simp add: algebra_simps)
qed

lemma koenig:
  fixes a b :: complex and M m :: real
  shows "(M + m) * (M * (cmod a)\<^sup>2 + m * (cmod b)\<^sup>2) =
           (cmod (of_real M * a + of_real m * b))\<^sup>2 + M * m * (cmod (b - a))\<^sup>2"
  unfolding cmod_power2 by (simp add: algebra_simps power2_eq_square)

lemma energy_split:
  fixes P2 V2 M m S d :: real
  assumes "0 < S" "0 < d"
  shows "(P2 + M * m * V2) / S / 2 - G * M * m / d =
           P2 / (2 * S) + (M * m / S) * (V2 / 2 - G * S / d)"
  using assms by (simp add: field_simps)

lemma total_energy_two:
  fixes s :: PhysicsEngine
  defines "M \<equiv> mass (heap s 0)" and "m \<equiv> mass (heap s 1)"
  assumes two: "bodies s = [0, 1]" and mpos: "0 < M" "0 < m" and dpos: "0 < cmod (rel_pos s)"
  shows "calculate_total_energy s =
           (cmod (momentum s))\<^sup>2 / (2 * (M + m)) +
           (M * m / (M + m)) * ((cmod (rel_vel s))\<^sup>2 / 2 - G * (M + m) / cmod (rel_pos s))"
proof -
  define v0 where "v0 = cx (velocity (heap s 0))"
  define v1 where "v1 = cx (velocity (heap s 1))"
  define d where "d = cmod (rel_pos s)"
  have vn: "vnorm (vsub (position (heap s 0)) (position (heap s 1))) = d"
    unfolding vnorm_cx cx_vsub d_def rel_pos_def by (rule norm_minus_commute)
  have ke: "calculate_kinetic_energy s = (M * (cmod v0)\<^sup>2 + m * (cmod v1)\<^sup>2) / 2"
    by (simp add: calculate_kinetic_energy_def two vnorm_cx M_def m_def v0_def v1_def)
  have pe: "calculate_potential_energy s = - (G * M * m / d)"
    using dpos unfolding calculate_potential_energy_def two
    by (simp add: vn Let_def d_def[symmetric] M_def m_def del: One_nat_def)
  have Mm: "0 < M + m" using mpos by simp
  have k: "(M + m) * (M * (cmod v0)\<^sup>2 + m * (cmod v1)\<^sup>2) =
      (cmod (momentum s))\<^sup>2 + M * m * (cmod (rel_vel s))\<^sup>2"
    unfolding momentum_def rel_vel_def M_def[symmetric] m_def[symmetric] v0_def[symmetric]
      v1_def[symmetric] by (rule koenig)
  have "M * (cmod v0)\<^sup>2 + m * (cmod v1)\<^sup>2 =
      ((cmod (momentum s))\<^sup>2 + M * m * (cmod (rel_vel s))\<^sup>2) / (M + m)"
    using Mm k by (simp add: field_simps)
  then have "calculate_total_energy s =
      ((cmod (momentum s))\<^sup>2 + M * m * (cmod (rel_vel s))\<^sup>2) / (M + m) / 2 - G * M * m / d"
    by (simp add: calculate_total_energy_def ke pe)
  also have "\<dots> = (cmod (momentum s))\<^sup>2 / (2 * (M + m)) +
           (M * m / (M + m)) * ((cmod (rel_vel s))\<^sup>2 / 2 - G * (M + m) / d)"
    using Mm dpos unfolding d_def by (rule energy_split)
  finally show ?thesis unfolding d_def .
qed

subsection \<open>The Sun-Earth run\<close>

lemma sun_earth_simps:
  "bodies sun_earth = [0, 1]"
  "heap sun_earth 0 = sun"
  "heap sun_earth 1 = earth"
  by (simp_all add: sun_earth_def add_body_def PhysicsEngine_init_def)

lemma cmod_Complex_re: "cmod (Complex a 0) = \<bar>a\<bar>"
  by (simp add: cmod_def)

lemma cmod_Complex_im: "cmod (Complex 0 b) = \<bar>b\<bar>"
  by (simp add: cmod_def)

lemma sun_earth_rel:
  "rel_pos sun_earth = Complex (1496 * 10 ^ 8) 0"
  "rel_vel sun_earth = Complex 0 29780"
  by (simp_all add: rel_pos_def rel_vel_def sun_earth_simps sun_def earth_def
      CelestialBody_init_def cx_def complex_eq_iff del: One_nat_def)

lemma sun_earth_ang: "ang_momentum sun_earth = 1496 * 10 ^ 8 * 29780"
  unfolding ang_momentum_def sun_earth_rel by simp

lemma sun_earth_spec: "specific_energy sun_earth = 29780\<^sup>2 / 2 - mu / (1496 * 10 ^ 8)"
  unfolding specific_energy_def sun_earth_rel cmod_Complex_re cmod_Complex_im by simp

lemma mu_val: "mu = 667430 * 1989005972 * 10 ^ 5"
  by (simp add: mu_def G_def M_sun_def m_earth_def)

lemma mu_pos: "0 < mu"
  by (simp add: mu_val)

lemma drift_numbers:
  fixes \<eta> :: real
  defines "\<eta> \<equiv> - (specific_energy sun_earth + 36500 * 210)"
  shows "0 \<le> \<eta>"
    and "2 * \<eta> * (12 * 10 ^ 10) \<le> mu"
    and "0 < (ang_momentum sun_earth)\<^sup>2 / 2 - mu * (12 * 10 ^ 10) + \<eta> * (12 * 10 ^ 10)\<^sup>2"
    and "2 * (mu / (12 * 10 ^ 10) - \<eta>) \<le> 37000\<^sup>2"
    and "37000 + 1000 * mu / (12 * 10 ^ 10)\<^sup>2 \<le> 37010"
    and "(1199 * 10 ^ 8 :: real) \<le> 12 * 10 ^ 10 - 1000 * 37010"
    and "3 * mu * 1000\<^sup>2 * 37010\<^sup>2 / (2 * (1199 * 10 ^ 8) ^ 3) +
           1000\<^sup>2 * mu\<^sup>2 / (2 * (1199 * 10 ^ 8) ^ 4) \<le> 210"
  unfolding \<eta>_def sun_earth_spec sun_earth_ang mu_val by simp_all

lemma M_sun_pos: "0 < M_sun" and m_earth_pos: "0 < m_earth"
  by (simp_all add: M_sun_def m_earth_def)

lemma drift_inv_far:
  assumes inv: "drift_inv k s" and k: "k \<le> 36500"
  shows "12 * 10 ^ 10 \<le> cmod (rel_pos s)"
proof -
  define \<eta> :: real where "\<eta> = - (specific_energy sun_earth + 36500 * 210)"
  have "real k * 210 \<le> 36500 * 210" using k by simp
  moreover have "\<bar>specific_energy s - specific_energy sun_earth\<bar> \<le> real k * 210"
    using inv by (simp add: drift_inv_def)
  ultimately have "specific_energy s \<le> - \<eta>" unfolding \<eta>_def by linarith
  then have en: "(cmod (rel_vel s))\<^sup>2 / 2 - mu / cmod (rel_pos s) \<le> - \<eta>"
    by (simp add: specific_energy_def)
  have ang: "Im (cnj (rel_pos s) * rel_vel s) = ang_momentum sun_earth"
    using inv by (simp add: drift_inv_def ang_momentum_def)
  have L0: "ang_momentum sun_earth \<noteq> 0" by (simp add: sun_earth_ang)
  have "12 * 10 ^ 10 \<le> cmod (rel_pos s) \<and> cmod (rel_vel s) \<le> 37000"
    by (rule kepler_bounds[OF mu_pos _ _ drift_numbers(1)[folded \<eta>_def] L0 ang en
          drift_numbers(2)[folded \<eta>_def] drift_numbers(3)[folded \<eta>_def]
          drift_numbers(4)[folded \<eta>_def]]) simp_all
  then show ?thesis by simp
qed

lemma drift_inv_step:
  assumes inv: "drift_inv k s" and k: "k < 36500"
  shows "drift_inv (Suc k) (update 1000 s)"
proof -
  define \<eta> :: real where "\<eta> = - (specific_energy sun_earth + 36500 * 210)"
  define r where "r = rel_pos s"
  define w where "w = rel_vel s"
  define w' where "w' = w - of_real (1000 * mu / cmod r ^ 3) * r"
  define r' where "r' = r + of_real 1000 * w'"
  have two: "bodies s = [0, 1]" and M: "mass (heap s 0) = M_sun" and m: "mass (heap s 1) = m_earth"
    and mom: "momentum s = momentum sun_earth"
    and ang0: "ang_momentum s = ang_momentum sun_earth"
    and e: "\<bar>specific_energy s - specific_energy sun_earth\<bar> \<le> real k * 210"
    using inv by (simp_all add: drift_inv_def)
  have "real k * 210 \<le> 36500 * 210" using k by simp
  with e have "specific_energy s \<le> - \<eta>" unfolding \<eta>_def by linarith
  then have en: "(cmod w)\<^sup>2 / 2 - mu / cmod r \<le> - \<eta>"
    by (simp add: specific_energy_def r_def w_def)
  have ang: "Im (cnj r * w) = ang_momentum sun_earth"
    using ang0 by (simp add: ang_momentum_def r_def w_def)
  have L0: "ang_momentum sun_earth \<noteq> 0" by (simp add: sun_earth_ang)
  have step: "12 * 10 ^ 10 \<le> cmod r \<and> Im (cnj r' * w') = ang_momentum sun_earth \<and>
      \<bar>((cmod w')\<^sup>2 / 2 - mu / cmod r') - ((cmod w)\<^sup>2 / 2 - mu / cmod r)\<bar> \<le> 210"
    unfolding r'_def w'_def
    by (rule kepler_step_drift[OF mu_pos _ _ _ _ drift_numbers(1)[folded \<eta>_def] L0 ang en
          drift_numbers(2)[folded \<eta>_def] drift_numbers(3)[folded \<eta>_def]
          drift_numbers(4)[folded \<eta>_def] drift_numbers(5) drift_numbers(6)
          drift_numbers(7)]) simp_all
  then have "12 * 10 ^ 10 \<le> cmod (rel_pos s)" unfolding r_def by (rule conjunct1)
  then have far: "1000 \<le> cmod (rel_pos s)" by simp
  have Mpos: "0 < mass (heap s 0)" and mpos: "0 < mass (heap s 1)"
    using M m M_sun_pos m_earth_pos by simp_all
  note tb = two_body_step[OF two Mpos mpos far, of 1000]
  have rv: "rel_vel (update 1000 s) = w'"
    unfolding tb(4) w'_def r_def w_def M m mu_def ..
  have rp: "rel_pos (update 1000 s) = r'"
    unfolding tb(5) rv r'_def r_def ..
  have "\<bar>specific_energy (update 1000 s) - specific_energy s\<bar> \<le> 210"
    using step unfolding specific_energy_def rv rp r_def[symmetric] w_def[symmetric] by simp
  with e have "\<bar>specific_energy (update 1000 s) - specific_energy sun_earth\<bar> \<le> real (Suc k) * 210"
    by (simp add: algebra_simps)
  moreover have "ang_momentum (update 1000 s) = ang_momentum sun_earth"
    using step unfolding ang_momentum_def rv rp by simp
  ultimately show ?thesis
    unfolding drift_inv_def using tb(1,2,3,6) M m mom by simp
qed

lemma drift_inv_0: "drift_inv 0 sun_earth"
  by (simp add: drift_inv_def sun_earth_simps sun_def earth_def CelestialBody_init_def
      del: One_nat_def)

lemma drift_inv_funpow: "k \<le> 36500 \<Longrightarrow> drift_inv k ((update 1000 ^^ k) sun_earth)"
proof (induction k)
  case 0
  show ?case using drift_inv_0 by simp
next
  case (Suc k)
  then have "drift_inv k ((update 1000 ^^ k) sun_earth)" and "k < 36500" by simp_all
  then have "drift_inv (Suc k) (update 1000 ((update 1000 ^^ k) sun_earth))"
    by (rule drift_inv_step)
  then show ?case by simp
qed

lemma sun_earth_momentum_cmod: "cmod (momentum sun_earth) = m_earth * 29780"
proof -
  have "momentum sun_earth = Complex 0 (m_earth * 29780)"
    by (simp add: momentum_def sun_earth_simps sun_def earth_def CelestialBody_init_def
        cx_def complex_eq_iff del: One_nat_def)
  then show ?thesis using m_earth_pos by (simp add: cmod_Complex_im)
qed

lemma drift_inv_energy:
  assumes inv: "drift_inv k s" and k: "k \<le> 36500"
  shows "calculate_total_energy s =
           (m_earth * 29780)\<^sup>2 / (2 * (M_sun + m_earth)) +
           (M_sun * m_earth / (M_sun + m_earth)) * specific_energy s"
proof -
  have two: "bodies s = [0, 1]" and M: "mass (heap s 0) = M_sun" and m: "mass (heap s 1) = m_earth"
    and mom: "momentum s = momentum sun_earth"
    using inv by (simp_all add: drift_inv_def)
  have Mpos: "0 < mass (heap s 0)" and mpos: "0 < mass (heap s 1)"
    using M m M_sun_pos m_earth_pos by simp_all
  have "12 * 10 ^ 10 \<le> cmod (rel_pos s)" using inv k by (rule drift_inv_far)
  moreover have "(0::real) < 12 * 10 ^ 10" by simp
  ultimately have dpos: "0 < cmod (rel_pos s)" by (rule less_le_trans[rotated])
  show ?thesis
    unfolding total_energy_two[OF two Mpos mpos dpos] M m mom sun_earth_momentum_cmod
      specific_energy_def mu_def ..
qed

lemma drift_budget:
  "(M_sun * m_earth / (M_sun + m_earth)) * (36500 * 210) * 100 <
     5 * \<bar>(m_earth * 29780)\<^sup>2 / (2 * (M_sun + m_earth)) +
           (M_sun * m_earth / (M_sun + m_earth)) * specific_energy sun_earth\<bar>"
  unfolding sun_earth_spec mu_val M_sun_def m_earth_def by simp

lemma initial_energy_negative:
  "(m_earth * 29780)\<^sup>2 / (2 * (M_sun + m_earth)) +
     (M_sun * m_earth / (M_sun + m_earth)) * specific_energy sun_earth < 0"
  unfolding sun_earth_spec mu_val M_sun_def m_earth_def by simp

section \<open>The claims\<close>

text \<open>
  Claim C1. \<open>calculate_gravitational_force a b\<close> is the zero vector when the distance between
  the two positions is below 1000, whatever the masses. Otherwise it is the unit vector
  from \<open>a\<close> towards \<open>b\<close> (the difference of the positions over the distance, of norm 1)
  scaled by \<open>G * mass a * mass b / distance\<^sup>2\<close>, which is its magnitude for positive
  masses; and \<open>G\<close> is \<open>6.67430e-11\<close>.
\<close>

theorem force_softened_newton:
  fixes a b :: CelestialBody
  defines "direction \<equiv> vsub (position b) (position a)"
  defines "distance \<equiv> vnorm direction"
  shows "(distance < 1000 \<longrightarrow> calculate_gravitational_force a b = vzero) \<and>
         (\<not> distance < 1000 \<longrightarrow>
            calculate_gravitational_force a b =
              smul (G * mass a * mass b / distance\<^sup>2) (vdiv direction distance) \<and>
            vnorm (vdiv direction distance) = 1 \<and>
            (0 < mass a \<and> 0 < mass b \<longrightarrow>
               vnorm (calculate_gravitational_force a b) = G * mass a * mass b / distance\<^sup>2)) \<and>
         G = 6.67430 / 10 ^ 11"
proof (intro conjI impI)
  assume "distance < 1000"
  then show "calculate_gravitational_force a b = vzero"
    by (simp add: calculate_gravitational_force_def Let_def direction_def distance_def)
next
  assume far: "\<not> distance < 1000"
  then show eq: "calculate_gravitational_force a b =
              smul (G * mass a * mass b / distance\<^sup>2) (vdiv direction distance)"
    by (simp add: calculate_gravitational_force_def Let_def direction_def distance_def)
  from far have nz: "vnorm direction \<noteq> 0" by (simp add: distance_def)
  then show unit: "vnorm (vdiv direction distance) = 1"
    unfolding distance_def by (rule vnorm_vdiv_self)
  assume "0 < mass a \<and> 0 < mass b"
  then have "0 \<le> G * mass a * mass b / distance\<^sup>2"
    using G_pos by simp
  then have k: "\<bar>G * mass a * mass b / distance\<^sup>2\<bar> = G * mass a * mass b / distance\<^sup>2"
    by (rule abs_of_nonneg)
  show "vnorm (calculate_gravitational_force a b) = G * mass a * mass b / distance\<^sup>2"
    unfolding eq vnorm_smul unit k by simp
next
  show "G = 6.67430 / 10 ^ 11" by (simp add: G_def)
qed

theorem force_softened_newton_witness:
  "vnorm (vsub (position moon0) (position sun0)) < 1000 \<and>
   calculate_gravitational_force sun0 moon0 = vzero \<and>
   \<not> vnorm (vsub (position earth0) (position sun0)) < 1000 \<and>
   0 < mass sun0 \<and> 0 < mass earth0 \<and>
   vnorm (calculate_gravitational_force sun0 earth0) = G * 6 / 25000000"
proof -
  have dm: "vnorm (vsub (position moon0) (position sun0)) = 500"
    by (simp add: moon0_def sun0_def CelestialBody_init_def vnorm_300_400 del: vnorm.simps)
  have de: "vnorm (vsub (position earth0) (position sun0)) = 5000"
    by (simp add: earth0_def sun0_def CelestialBody_init_def vnorm_3000_4000 del: vnorm.simps)
  have m: "mass sun0 = 2" "mass earth0 = 3"
    by (simp_all add: earth0_def sun0_def CelestialBody_init_def)
  have near: "vnorm (vsub (position moon0) (position sun0)) < 1000"
    unfolding dm by simp
  have far: "\<not> vnorm (vsub (position earth0) (position sun0)) < 1000"
    unfolding de by simp
  have pos: "0 < mass sun0 \<and> 0 < mass earth0"
    unfolding m by simp
  from force_softened_newton[where a = sun0 and b = moon0] near
  have z: "calculate_gravitational_force sun0 moon0 = vzero" by blast
  from force_softened_newton[where a = sun0 and b = earth0] far pos
  have "vnorm (calculate_gravitational_force sun0 earth0) =
      G * mass sun0 * mass earth0 / (vnorm (vsub (position earth0) (position sun0)))\<^sup>2"
    by blast
  then have "vnorm (calculate_gravitational_force sun0 earth0) = G * 6 / 25000000"
    unfolding de m by simp
  with near far pos z show ?thesis by blast
qed

text \<open>
  Claim C2. \<open>PhysicsEngine.update(dt)\<close> is two-phase. Every listed body receives, through
  \<open>apply_force\<close>, the sum of the pairwise forces from every other listed body (itself
  excluded), all of them computed in the store as it was before the step; only then is
  \<open>CelestialBody.update(dt)\<close> run on it, once for each time it is listed. Bodies that are
  not listed are untouched, the list is unchanged and the time grows by \<open>dt\<close>.
\<close>

theorem update_two_phase:
  "bodies (update dt s) = bodies s \<and>
   time (update dt s) = time s + dt \<and>
   (\<forall>r \<in> set (bodies s).
      heap (update dt s) r =
        (CelestialBody_update dt ^^ count_list (bodies s) r)
          (apply_force (net_force (heap s) (bodies s) r) (heap s r))) \<and>
   (\<forall>r. r \<notin> set (bodies s) \<longrightarrow> heap (update dt s) r = heap s r)"
proof (intro conjI ballI allI impI)
  show "bodies (update dt s) = bodies s" by (simp add: update_def Let_def)
  show "time (update dt s) = time s + dt" by (simp add: update_def Let_def)
next
  fix r assume "r \<in> set (bodies s)"
  then show "heap (update dt s) r =
        (CelestialBody_update dt ^^ count_list (bodies s) r)
          (apply_force (net_force (heap s) (bodies s) r) (heap s r))"
    by (simp add: update_heap)
next
  fix r assume "r \<notin> set (bodies s)"
  then show "heap (update dt s) r = heap s r"
    by (simp add: update_heap count_list_notin)
qed

theorem update_two_phase_witness:
  "0 \<in> set (bodies engine0) \<and> 2 \<notin> set (bodies engine0) \<and>
   heap (update 1 engine0) 2 = moon0 \<and>
   acceleration (heap (update 1 engine0) 0) = (G * 9 / 125000000, G * 12 / 125000000) \<and>
   velocity (heap (update 1 engine0) 0) = (G * 9 / 125000000, G * 12 / 125000000) \<and>
   position (heap (update 1 engine0) 0) = (G * 9 / 125000000, G * 12 / 125000000)"
proof -
  have a: "0 \<in> set (bodies engine0)" and b: "2 \<notin> set (bodies engine0)"
    by (simp_all add: engine0_bodies)
  have nf: "net_force (heap engine0) (bodies engine0) 0 =
      (G * 18 / 125000000, G * 24 / 125000000)"
    by (simp add: net_force_def engine0_heap engine0_bodies heap0_def force_sun0_earth0
        vzero_def)
  from update_two_phase[of 1 engine0] b have "heap (update 1 engine0) 2 = heap engine0 2"
    by blast
  then have m: "heap (update 1 engine0) 2 = moon0"
    by (simp add: engine0_heap heap0_def)
  from update_two_phase[of 1 engine0] a
  have "heap (update 1 engine0) 0 =
      (CelestialBody_update 1 ^^ count_list (bodies engine0) 0)
        (apply_force (net_force (heap engine0) (bodies engine0) 0) (heap engine0 0))"
    by blast
  then have "heap (update 1 engine0) 0 =
      CelestialBody_update 1 (apply_force (G * 18 / 125000000, G * 24 / 125000000) sun0)"
    unfolding nf by (simp add: engine0_bodies engine0_heap heap0_def)
  then have "acceleration (heap (update 1 engine0) 0) = (G * 9 / 125000000, G * 12 / 125000000) \<and>
   velocity (heap (update 1 engine0) 0) = (G * 9 / 125000000, G * 12 / 125000000) \<and>
   position (heap (update 1 engine0) 0) = (G * 9 / 125000000, G * 12 / 125000000)"
    by (simp add: CelestialBody_update_def Let_def apply_force_def sun0_def
        CelestialBody_init_def vzero_def)
  with a b m show ?thesis by blast
qed

text \<open>
  Claim C3. \<open>CelestialBody.update(dt)\<close> is semi-implicit Euler and nothing else. It never
  raises: the version with the error branch of \<open>pop(0)\<close> always returns the body that
  \<open>CelestialBody_update\<close> computes. That body is the old one with exactly three fields
  rewritten: the velocity is the old velocity plus acceleration times \<open>dt\<close>; the position
  is the old position plus the new velocity times \<open>dt\<close>; the trajectory is the old
  trajectory with the new position appended at the end and, when that makes more than
  500 entries, its oldest entry dropped. Name, mass, acceleration and colour are as
  before.
\<close>

theorem CelestialBody_update_semi_implicit:
  fixes dt :: real and b :: CelestialBody
  defines "v' \<equiv> vadd (velocity b) (vmul (acceleration b) dt)"
  defines "p' \<equiv> vadd (position b) (vmul v' dt)"
  shows "CelestialBody_update_checked dt b = Inr (CelestialBody_update dt b) \<and>
         CelestialBody_update dt b =
           b\<lparr>velocity := v', position := p',
             trajectory := (if length (trajectory b) < 500 then trajectory b @ [p']
                            else tl (trajectory b @ [p']))\<rparr> \<and>
         velocity (CelestialBody_update dt b) = v' \<and>
         position (CelestialBody_update dt b) =
           vadd (position b) (vmul (velocity (CelestialBody_update dt b)) dt) \<and>
         last (trajectory (CelestialBody_update dt b)) = position (CelestialBody_update dt b) \<and>
         name (CelestialBody_update dt b) = name b \<and>
         mass (CelestialBody_update dt b) = mass b \<and>
         acceleration (CelestialBody_update dt b) = acceleration b \<and>
         color (CelestialBody_update dt b) = color b"
proof -
  have chk: "CelestialBody_update_checked dt b = Inr (CelestialBody_update dt b)"
    by (cases "trajectory b")
      (simp_all add: CelestialBody_update_checked_def CelestialBody_update_def Let_def)
  have eq: "CelestialBody_update dt b =
           b\<lparr>velocity := v', position := p',
             trajectory := (if length (trajectory b) < 500 then trajectory b @ [p']
                            else tl (trajectory b @ [p']))\<rparr>"
    by (simp add: CelestialBody_update_def Let_def v'_def p'_def)
  have lst: "last (trajectory (CelestialBody_update dt b)) = position (CelestialBody_update dt b)"
    by (cases "trajectory b") (simp_all add: CelestialBody_update_def Let_def)
  have rest: "velocity (CelestialBody_update dt b) = v' \<and>
         position (CelestialBody_update dt b) =
           vadd (position b) (vmul (velocity (CelestialBody_update dt b)) dt) \<and>
         name (CelestialBody_update dt b) = name b \<and>
         mass (CelestialBody_update dt b) = mass b \<and>
         acceleration (CelestialBody_update dt b) = acceleration b \<and>
         color (CelestialBody_update dt b) = color b"
    by (simp add: CelestialBody_update_def Let_def v'_def)
  from chk eq lst rest show ?thesis by blast
qed

text \<open>
  Claim C4. A trajectory of at most 500 entries has at most 500 entries after \<open>apply_force\<close>,
  after one \<open>CelestialBody.update\<close> and after any number of them; after more than 500
  updates it has exactly 500 entries, which are the positions the body had after the
  last 500 updates, oldest first.
\<close>

theorem trajectory_capped:
  assumes "length (trajectory b) \<le> 500"
  shows "length (trajectory (apply_force f b)) \<le> 500 \<and>
         length (trajectory (CelestialBody_update dt b)) \<le> 500 \<and>
         length (trajectory (fold CelestialBody_update dts b)) \<le> 500 \<and>
         (500 < length dts \<longrightarrow>
            length (trajectory (fold CelestialBody_update dts b)) = 500 \<and>
            trajectory (fold CelestialBody_update dts b) =
              map (\<lambda>k. position (fold CelestialBody_update (take (Suc k) dts) b))
                [length dts - 500..<length dts])"
proof (intro conjI impI)
  show "length (trajectory (apply_force f b)) \<le> 500"
    using assms by (simp add: apply_force_def)
  show "length (trajectory (CelestialBody_update dt b)) \<le> 500"
    using assms by (rule trajectory_step_length)
  show "length (trajectory (fold CelestialBody_update dts b)) \<le> 500"
    using assms by (rule fold_length_le)
next
  assume many: "500 < length dts"
  let ?n = "length dts" and ?t = "trajectory b"
  have "trajectory (fold CelestialBody_update dts b) =
          drop (length ?t + ?n - 500) (?t @ positions_after dts b)"
    using assms by (rule trajectory_fold)
  also have "\<dots> = drop (?n - 500) (positions_after dts b)"
    using many by simp
  also have "\<dots> = map (\<lambda>k. position (fold CelestialBody_update (take (Suc k) dts) b))
                [?n - 500..<?n]"
    by (simp add: positions_after_map drop_map)
  finally show eq: "trajectory (fold CelestialBody_update dts b) =
              map (\<lambda>k. position (fold CelestialBody_update (take (Suc k) dts) b))
                [?n - 500..<?n]" .
  show "length (trajectory (fold CelestialBody_update dts b)) = 500"
    unfolding eq using many by simp
qed

theorem trajectory_capped_witness:
  "length (trajectory earth0) \<le> 500 \<and> 500 < length (replicate 501 (1000::real)) \<and>
   length (trajectory (fold CelestialBody_update (replicate 501 1000) earth0)) = 500"
proof -
  have a: "length (trajectory earth0) \<le> 500"
    by (simp add: earth0_def CelestialBody_init_def)
  have b: "500 < length (replicate 501 (1000::real))" by simp
  from trajectory_capped[OF a, where dts = "replicate 501 1000"] b
  have "length (trajectory (fold CelestialBody_update (replicate 501 1000) earth0)) = 500"
    by blast
  with a b show ?thesis by blast
qed

text \<open>
  Claim C5. Force antisymmetry: for two bodies at least 1000 m apart, the force on \<open>a\<close> from
  \<open>b\<close> is the negation of the force on \<open>b\<close> from \<open>a\<close>.
\<close>

theorem force_antisymmetric:
  assumes "1000 \<le> vnorm (vsub (position b) (position a))"
  shows "calculate_gravitational_force a b = vneg (calculate_gravitational_force b a)"
proof -
  let ?d = "vsub (position b) (position a)"
  let ?e = "vsub (position a) (position b)"
  have n: "vnorm ?e = vnorm ?d" by (rule vnorm_vsub_commute)
  have e: "?e = vneg ?d" by (rule vsub_neg)
  have "calculate_gravitational_force b a =
        smul (G * mass b * mass a / (vnorm ?d)\<^sup>2) (vdiv (vneg ?d) (vnorm ?d))"
    using assms n e by (simp add: calculate_gravitational_force_def Let_def)
  moreover have "calculate_gravitational_force a b =
        smul (G * mass a * mass b / (vnorm ?d)\<^sup>2) (vdiv ?d (vnorm ?d))"
    using assms by (simp add: calculate_gravitational_force_def Let_def)
  ultimately show ?thesis
    by (simp add: vdiv_vneg smul_vneg vneg_vneg mult.commute mult.left_commute)
qed

theorem force_antisymmetric_witness:
  "1000 \<le> vnorm (vsub (position earth0) (position sun0)) \<and>
   calculate_gravitational_force sun0 earth0 = vneg (calculate_gravitational_force earth0 sun0)"
proof -
  have h: "1000 \<le> vnorm (vsub (position earth0) (position sun0))"
    by (simp add: earth0_def sun0_def CelestialBody_init_def vnorm_3000_4000 del: vnorm.simps)
  from h force_antisymmetric[OF h] show ?thesis by simp
qed

text \<open>
  Claim C6. Starting from \<open>time = 0\<close>, after \<open>k\<close> calls of \<open>PhysicsEngine.update(dt)\<close> with a
  fixed \<open>dt > 0\<close> the time is \<open>k * dt\<close>, and a further step makes it strictly larger;
  \<open>add_body\<close> and \<open>remove_body\<close> leave the time alone, and \<open>clear_all\<close> resets it to 0.
\<close>

theorem time_after_k_updates:
  assumes "0 < dt" and "time s = 0"
  shows "time ((update dt ^^ k) s) = real k * dt \<and>
         time ((update dt ^^ k) s) < time ((update dt ^^ Suc k) s) \<and>
         time (add_body q ((update dt ^^ k) s)) = time ((update dt ^^ k) s) \<and>
         (\<exists>s'. remove_body q ((update dt ^^ k) s) = Inr s' \<and> time s' = time ((update dt ^^ k) s)) \<and>
         time (clear_all ((update dt ^^ k) s)) = 0"
proof -
  have "time ((update dt ^^ k) s) = real k * dt"
    using assms(2) by (simp add: funpow_update_time)
  moreover have "time ((update dt ^^ k) s) < time ((update dt ^^ Suc k) s)"
    using assms(1) by (simp add: update_time)
  ultimately show ?thesis
    using remove_body_time[of q "(update dt ^^ k) s"]
    by (simp add: add_body_def clear_all_def)
qed

theorem time_after_k_updates_witness:
  "(0::real) < 1000 \<and> time engine0 = 0 \<and> time ((update 1000 ^^ 3) engine0) = 3000"
proof -
  have a: "(0::real) < 1000" by simp
  have b: "time engine0 = 0" by (simp add: engine0_def add_body_def PhysicsEngine_init_def)
  from time_after_k_updates[OF a b, of 3] a b show ?thesis by simp
qed

text \<open>
  Claim C7. From any state, \<open>clear_all\<close> leaves the collection empty and the time 0, and
  clearing twice gives the same state as clearing once.
\<close>

theorem clear_all_idempotent:
  "bodies (clear_all s) = [] \<and> time (clear_all s) = 0 \<and> clear_all (clear_all s) = clear_all s"
  by (simp add: clear_all_def)

text \<open>
  Claim C8. \<open>remove_body\<close> of a body that is not in the collection returns the state unchanged
  and raises nothing; for a body in the collection it removes the first entry that is
  this body (by identity) and nothing else.
\<close>

theorem remove_body_first_or_noop:
  "(r \<notin> set (bodies s) \<longrightarrow> remove_body r s = Inr s) \<and>
   (r \<in> set (bodies s) \<longrightarrow>
      (\<exists>pre post. bodies s = pre @ r # post \<and> r \<notin> set pre \<and>
         remove_body r s = Inr (s\<lparr>bodies := pre @ post\<rparr>)))"
proof (intro conjI impI)
  assume "r \<notin> set (bodies s)"
  then show "remove_body r s = Inr s" by (simp add: remove_body_def)
next
  assume i: "r \<in> set (bodies s)"
  from list_remove_in[OF i] obtain pre post where
    p: "bodies s = pre @ r # post" "r \<notin> set pre" "list_remove r (bodies s) = Inr (pre @ post)"
    by blast
  from i p(3) have "remove_body r s = Inr (s\<lparr>bodies := pre @ post\<rparr>)"
    by (simp add: remove_body_def)
  with p show "\<exists>pre post. bodies s = pre @ r # post \<and> r \<notin> set pre \<and>
         remove_body r s = Inr (s\<lparr>bodies := pre @ post\<rparr>)" by blast
qed

theorem remove_body_first_or_noop_witness:
  "(2 \<notin> set (bodies engine0) \<and> remove_body 2 engine0 = Inr engine0) \<and>
   (0 \<in> set (bodies engine0) \<and> remove_body 0 engine0 = Inr (engine0\<lparr>bodies := [1]\<rparr>))"
proof -
  have a: "2 \<notin> set (bodies engine0)" and b: "0 \<in> set (bodies engine0)"
    by (simp_all add: engine0_bodies)
  from remove_body_first_or_noop[of 2 engine0] a have "remove_body 2 engine0 = Inr engine0"
    by blast
  moreover have "remove_body 0 engine0 = Inr (engine0\<lparr>bodies := [1]\<rparr>)"
    by (simp add: remove_body_def engine0_bodies)
  ultimately show ?thesis using a b by blast
qed

text \<open>
  Claim C9. In the Sun-Earth system of the energy test (Sun of mass \<open>1.989e30\<close> at rest
  at the origin, Earth of mass \<open>5.972e24\<close> at \<open>[1.496e11, 0]\<close> with velocity
  \<open>[0, 29780]\<close>), the initial total energy is negative, and after each of the first 36500
  steps of \<open>PhysicsEngine.update(1000)\<close> the relative error of the total energy, as
  \<open>test.py\<close> computes it, is below 5 percent.
\<close>

theorem energy_drift_sun_earth:
  "calculate_total_energy sun_earth < 0 \<and>
   (\<forall>k \<le> 36500.
      relative_error (calculate_total_energy sun_earth)
        (calculate_total_energy ((update 1000 ^^ k) sun_earth)) < 5)"
proof (intro conjI allI impI)
  show "calculate_total_energy sun_earth < 0"
    unfolding drift_inv_energy[OF drift_inv_0 le0] by (rule initial_energy_negative)
next
  fix k :: nat
  assume k: "k \<le> 36500"
  define s where "s = (update 1000 ^^ k) sun_earth"
  define mur where "mur = M_sun * m_earth / (M_sun + m_earth)"
  define K where "K = (m_earth * 29780)\<^sup>2 / (2 * (M_sun + m_earth))"
  define E0 where "E0 = calculate_total_energy sun_earth"
  define Ek where "Ek = calculate_total_energy s"
  have inv: "drift_inv k s" unfolding s_def using k by (rule drift_inv_funpow)
  have Ek: "Ek = K + mur * specific_energy s"
    unfolding Ek_def K_def mur_def using inv k by (rule drift_inv_energy)
  have E0: "E0 = K + mur * specific_energy sun_earth"
    unfolding E0_def K_def mur_def using drift_inv_0 by (rule drift_inv_energy) simp
  have murpos: "0 < mur" using M_sun_pos m_earth_pos by (simp add: mur_def)
  have e: "\<bar>specific_energy s - specific_energy sun_earth\<bar> \<le> real k * 210"
    using inv by (simp add: drift_inv_def)
  have "real k * 210 \<le> 36500 * 210" using k by simp
  with e have e': "\<bar>specific_energy s - specific_energy sun_earth\<bar> \<le> 36500 * 210" by linarith
  have "\<bar>Ek - E0\<bar> = mur * \<bar>specific_energy s - specific_energy sun_earth\<bar>"
    unfolding Ek E0 using murpos by (simp add: right_diff_distrib[symmetric] abs_mult)
  also have "\<dots> \<le> mur * (36500 * 210)"
    using e' murpos by (intro mult_left_mono) simp_all
  finally have chg: "\<bar>Ek - E0\<bar> * 100 \<le> mur * (36500 * 210) * 100" by simp
  have bud: "mur * (36500 * 210) * 100 < 5 * \<bar>E0\<bar>"
    unfolding E0 K_def mur_def by (rule drift_budget)
  from chg bud have lt: "\<bar>Ek - E0\<bar> * 100 < 5 * \<bar>E0\<bar>" by linarith
  have "0 \<le> \<bar>Ek - E0\<bar> * 100" by simp
  with lt have E0pos: "0 < \<bar>E0\<bar>" by linarith
  have "\<bar>Ek - E0\<bar> / \<bar>E0\<bar> * 100 < 5"
    using lt E0pos by (simp add: field_simps)
  then show "relative_error (calculate_total_energy sun_earth)
       (calculate_total_energy ((update 1000 ^^ k) sun_earth)) < 5"
    by (simp add: relative_error_def Let_def E0_def Ek_def s_def)
qed

theorem energy_drift_sun_earth_witness:
  "relative_error (calculate_total_energy sun_earth)
     (calculate_total_energy ((update 1000 ^^ 36500) sun_earth)) < 5"
  using energy_drift_sun_earth by simp

text \<open>
  Claim C10. No operation changes a mass: \<open>apply_force\<close> writes the acceleration field only,
  and the mass of every object in the store is the same before and after
  \<open>CelestialBody.update\<close>, \<open>add_body\<close>, \<open>remove_body\<close>, \<open>clear_all\<close> and
  \<open>PhysicsEngine.update\<close>.
\<close>

theorem mass_never_modified:
  "mass (apply_force f b) = mass b \<and>
   (apply_force f b)\<lparr>acceleration := acceleration b\<rparr> = b \<and>
   mass (CelestialBody_update dt b) = mass b \<and>
   (\<forall>r. mass (heap (add_body q s) r) = mass (heap s r)) \<and>
   (\<exists>s'. remove_body q s = Inr s' \<and> (\<forall>r. mass (heap s' r) = mass (heap s r))) \<and>
   (\<forall>r. mass (heap (clear_all s) r) = mass (heap s r)) \<and>
   (\<forall>r. mass (heap (update dt s) r) = mass (heap s r))"
proof -
  have "mass (CelestialBody_update dt b) = mass b"
    by (simp add: CelestialBody_update_def Let_def)
  moreover obtain s' where "remove_body q s = Inr s'" "heap s' = heap s"
    using remove_body_heap by blast
  then have "\<exists>s'. remove_body q s = Inr s' \<and> (\<forall>r. mass (heap s' r) = mass (heap s r))"
    by simp
  ultimately show ?thesis
    by (simp add: apply_force_def add_body_def clear_all_def update_mass)
qed

end
